theory Spec2Isabelle
  imports Complex_Main "HOL-Library.Word" "HOL-Library.AList" "HOL-Library.Multiset"
begin

section \<open>JavaScript values\<close>

text \<open>
  A JavaScript string is a sequence of UTF-16 code units: \<open>length\<close>, \<open>slice\<close>,
  \<open>startsWith\<close> and \<open>===\<close> all work on code units. The facility names of the registry
  are Korean, so they are written as their code units.
\<close>

type_synonym jsstring = "16 word list"

definition js :: "string \<Rightarrow> jsstring" where
  \<comment> \<open>an ASCII literal as code units\<close>
  "js s = map (\<lambda>c. of_nat (of_char c)) s"

text \<open>
  A JavaScript number that the program only uses as an integer or as NaN
  (\<open>parseInt\<close>, \<open>Date.prototype.getTime\<close>): \<open>NaN\<close> or an integer. Values
  beyond the exact integer range of a double are not modelled.
\<close>

datatype jsnum = NaN | Num int

fun add_js :: "jsnum \<Rightarrow> jsnum \<Rightarrow> jsnum" where
  "add_js (Num a) (Num b) = Num (a + b)"
| "add_js _ _ = NaN"

fun sub_js :: "jsnum \<Rightarrow> jsnum \<Rightarrow> jsnum" where
  "sub_js (Num a) (Num b) = Num (a - b)"
| "sub_js _ _ = NaN"

fun gt_js :: "jsnum \<Rightarrow> jsnum \<Rightarrow> bool" where
  \<comment> \<open>\<open>a > b\<close>: false as soon as one side is NaN\<close>
  "gt_js (Num a) (Num b) = (a > b)"
| "gt_js _ _ = False"

definition startsWith :: "jsstring \<Rightarrow> jsstring \<Rightarrow> bool" where
  "startsWith s p = (take (length p) s = p)"

definition slice :: "jsstring \<Rightarrow> int \<Rightarrow> int \<Rightarrow> jsstring" where
  \<comment> \<open>\<open>String.prototype.slice(start, end)\<close> on integers: a negative index counts from
      the end, both are clamped to the string\<close>
  "slice s start fin =
     (let len = int (length s);
          lo = (if start < 0 then max (len + start) 0 else min start len);
          hi = (if fin < 0 then max (len + fin) 0 else min fin len)
      in take (nat (hi - lo)) (drop (nat lo) s))"

section \<open>The incident record and the list panel's text\<close>

text \<open>
  The fields \<open>id\<close>, \<open>date\<close>, \<open>location\<close>, \<open>count\<close> and \<open>cause\<close> of an
  incident carry the prefix \<open>inc_\<close> here (\<open>id\<close> and \<open>count\<close> are constants of the
  library).
\<close>

record incident =
  inc_id :: int
  inc_date :: jsstring
  inc_location :: jsstring
  inc_count :: jsnum
  inc_cause :: jsstring

definition truncate_js :: "jsstring \<Rightarrow> int \<Rightarrow> jsstring" where
  "truncate_js str n = (if int (length str) > n then slice str 0 (n - 1) @ js ''...'' else str)"

definition list_cause :: "incident \<Rightarrow> jsstring" where
  \<comment> \<open>the cause as an entry of the incident list shows it\<close>
  "list_cause i = truncate_js (inc_cause i) 25"

section \<open>The facility registry\<close>

text \<open>
  Coordinates and sizes are floating-point view data and are left out: a facility is its
  name and its shape (the field \<open>type\<close>, here \<open>ftype\<close>), a main-building part is its
  colour. The registry lists the three sub-locations of the main building (classrooms,
  hallway, toilets), then the gymnasium, the information building, the playground, the
  meal room, the student cafeteria and the storage.
\<close>

datatype facility_type = box | plane

record facility =
  name :: jsstring
  ftype :: facility_type

definition main_prefix :: jsstring where
  \<comment> \<open>the name of the main building, the prefix of its sub-locations\<close>
  "main_prefix = [0xBCF8, 0xAD00, 0xB3D9]"

definition classrooms :: jsstring where
  "classrooms = main_prefix @ js '' - '' @ [0xAD50, 0xC2E4]"

definition hallway :: jsstring where
  "hallway = main_prefix @ js '' - '' @ [0xBCF5, 0xB3C4]"

definition toilets :: jsstring where
  "toilets = main_prefix @ js '' - '' @ [0xD654, 0xC7A5, 0xC2E4]"

definition gymnasium :: jsstring where
  "gymnasium = [0xCCB4, 0xC721, 0xAD00]"

definition mainBuildingParts :: "jsstring \<Rightarrow> string list option" where
  \<comment> \<open>the colours of the visual parts of each sub-location\<close>
  "mainBuildingParts loc =
     (if loc = classrooms then Some [''#F59E0B'', ''#F59E0B'', ''#F59E0B'', ''#F59E0B'']
      else if loc = hallway then Some [''#D1D5DB'']
      else if loc = toilets then Some [''#60A5FA'', ''#60A5FA'']
      else None)"

definition facilities :: "facility list" where
  "facilities =
     [\<lparr>name = classrooms, ftype = box\<rparr>,
      \<lparr>name = hallway, ftype = box\<rparr>,
      \<lparr>name = toilets, ftype = box\<rparr>,
      \<lparr>name = gymnasium, ftype = box\<rparr>,
      \<lparr>name = [0xC815, 0xBCF4, 0xD654, 0xB3D9], ftype = box\<rparr>,
      \<lparr>name = [0xC6B4, 0xB3D9, 0xC7A5], ftype = plane\<rparr>,
      \<lparr>name = [0xAE09, 0xC2DD, 0xC2E4], ftype = box\<rparr>,
      \<lparr>name = [0xD559, 0xC0DD, 0xC2DD, 0xB2F9], ftype = box\<rparr>,
      \<lparr>name = [0xCC3D, 0xACE0], ftype = box\<rparr>]"

definition find_facility :: "jsstring \<Rightarrow> facility option" where
  \<comment> \<open>\<open>facilities.find(f => f.name === location)\<close>\<close>
  "find_facility loc = find (\<lambda>f. name f = loc) facilities"

section \<open>The incident overlay\<close>

text \<open>
  \<open>new Date(s).getTime()\<close> is the engine's: the functions below take it as the
  parameter \<open>tm\<close>, a function from the date string to a time in milliseconds or NaN.
\<close>

record aggregate =
  agg_count :: jsnum
  latestIncident :: incident

definition aggregate_step ::
  "(jsstring \<Rightarrow> jsnum) \<Rightarrow> (jsstring \<times> aggregate) list \<Rightarrow> incident
     \<Rightarrow> (jsstring \<times> aggregate) list" where
  \<comment> \<open>the body of the \<open>reduce\<close>; the accumulator object keeps its keys in the order of
      their insertion\<close>
  "aggregate_step tm acc i =
     (if startsWith (inc_location i) main_prefix then
        let cur = (case map_of acc (inc_location i) of
                     None \<Rightarrow> \<lparr>agg_count = Num 0, latestIncident = i\<rparr>
                   | Some a \<Rightarrow> a);
            summed = cur\<lparr>agg_count := add_js (agg_count cur) (inc_count i)\<rparr>;
            newer = (if gt_js (tm (inc_date i)) (tm (inc_date (latestIncident summed)))
                     then summed\<lparr>latestIncident := i\<rparr> else summed)
        in AList.update (inc_location i) newer acc
      else acc)"

definition mainBuildingAggregated ::
  "(jsstring \<Rightarrow> jsnum) \<Rightarrow> incident list \<Rightarrow> (jsstring \<times> aggregate) list" where
  "mainBuildingAggregated tm incidents = foldl (aggregate_step tm) [] incidents"

function split_from :: "jsstring \<Rightarrow> jsstring \<Rightarrow> jsstring \<Rightarrow> jsstring list" where
  \<comment> \<open>\<open>String.prototype.split\<close> with a non-empty separator: \<open>cur\<close> is the piece being
      read, reversed\<close>
  "split_from sep cur [] = [rev cur]"
| "split_from sep cur (c # cs) =
     (if sep \<noteq> [] \<and> startsWith (c # cs) sep
      then rev cur # split_from sep [] (drop (length sep) (c # cs))
      else split_from sep (c # cur) cs)"
  by pat_completeness auto
termination
  by (relation "measure (\<lambda>(sep, cur, s). length s)") auto

definition split_js :: "jsstring \<Rightarrow> jsstring \<Rightarrow> jsstring list" where
  "split_js s sep = (if sep = [] then map (\<lambda>c. [c]) s else split_from sep [] s)"

definition shortName :: "jsstring \<Rightarrow> jsstring option" where
  \<comment> \<open>\<open>location.split(' - ')[1]\<close>; \<open>None\<close> is \<open>undefined\<close>\<close>
  "shortName location =
     (let pieces = split_js location (js '' - '')
      in if 1 < length pieces then Some (pieces ! 1) else None)"

text \<open>
  A marker is a clickable overlay element: the facility it is anchored to, its CSS class
  (highlighted or not), its text (a short name, for an aggregated label, and a count) and
  the incident it is tagged with, which a click selects.
\<close>

record marker =
  anchor :: jsstring
  is_highlighted :: bool
  short_name :: "jsstring option option"
  shown_count :: jsnum
  tagged :: incident

datatype overlay_object = PartMesh jsstring string | Label marker

definition main_building_objects ::
  "int option \<Rightarrow> jsstring \<times> aggregate \<Rightarrow> overlay_object list" where
  \<comment> \<open>the body of the loop over the aggregated sub-locations\<close>
  "main_building_objects highlightedIncidentId entry =
     (case mainBuildingParts (fst entry) of
        None \<Rightarrow> []
      | Some parts \<Rightarrow>
          map (PartMesh (fst entry)) parts @
          (case find_facility (fst entry) of
             None \<Rightarrow> []
           | Some f \<Rightarrow>
               [Label \<lparr>anchor = name f,
                  is_highlighted = (Some (inc_id (latestIncident (snd entry))) = highlightedIncidentId),
                  short_name = Some (shortName (fst entry)),
                  shown_count = agg_count (snd entry),
                  tagged = latestIncident (snd entry)\<rparr>]))"

definition incident_marker :: "int option \<Rightarrow> incident \<Rightarrow> marker list" where
  \<comment> \<open>the body of the loop over the incidents: a marker, or nothing\<close>
  "incident_marker highlightedIncidentId i =
     (if startsWith (inc_location i) main_prefix then []
      else case find_facility (inc_location i) of
             None \<Rightarrow> []
           | Some f \<Rightarrow>
               [\<lparr>anchor = name f,
                 is_highlighted = (Some (inc_id i) = highlightedIncidentId),
                 short_name = None,
                 shown_count = inc_count i,
                 tagged = i\<rparr>])"

fun labels_of :: "overlay_object list \<Rightarrow> marker list" where
  "labels_of [] = []"
| "labels_of (Label m # os) = m # labels_of os"
| "labels_of (PartMesh l c # os) = labels_of os"

record overlay =
  mainBuildingIncidents :: "overlay_object list"
  incidentMarkers :: "marker list"
  interactiveObjects :: "marker list"

definition sync_overlay ::
  "(jsstring \<Rightarrow> jsnum) \<Rightarrow> int option \<Rightarrow> incident list \<Rightarrow> overlay" where
  \<comment> \<open>the incident visualisation effect: both groups are cleared and rebuilt from the
      store, so the result does not depend on what they held\<close>
  "sync_overlay tm highlightedIncidentId incidents =
     (let main = concat (map (main_building_objects highlightedIncidentId)
                   (mainBuildingAggregated tm incidents));
          markers = concat (map (incident_marker highlightedIncidentId) incidents)
      in \<lparr>mainBuildingIncidents = main,
          incidentMarkers = markers,
          interactiveObjects = labels_of main @ markers\<rparr>)"

definition sum_counts :: "jsnum list \<Rightarrow> jsnum" where
  "sum_counts ns = foldl add_js (Num 0) ns"

definition displayed_total :: "overlay \<Rightarrow> jsstring \<Rightarrow> jsnum" where
  \<comment> \<open>the counts shown at a facility, added up\<close>
  "displayed_total ov f =
     sum_counts (map shown_count (filter (\<lambda>m. anchor m = f) (interactiveObjects ov)))"

definition pick_latest :: "(jsstring \<Rightarrow> jsnum) \<Rightarrow> incident \<Rightarrow> incident \<Rightarrow> incident" where
  \<comment> \<open>the comparison of the \<open>reduce\<close>: the tracked incident \<open>l\<close> against the next one\<close>
  "pick_latest tm l i = (if gt_js (tm (inc_date i)) (tm (inc_date l)) then i else l)"

definition aggregate_of :: "(jsstring \<Rightarrow> jsnum) \<Rightarrow> incident list \<Rightarrow> aggregate" where
  \<comment> \<open>what the \<open>reduce\<close> holds for a sub-location whose incidents are the non-empty
      list \<open>ys\<close>, in order\<close>
  "aggregate_of tm ys =
     \<lparr>agg_count = sum_counts (map inc_count ys),
      latestIncident = foldl (pick_latest tm) (hd ys) (tl ys)\<rparr>"

fun le_js :: "jsnum \<Rightarrow> jsnum \<Rightarrow> bool" where
  \<comment> \<open>\<open>a <= b\<close>\<close>
  "le_js (Num a) (Num b) = (a \<le> b)"
| "le_js _ _ = False"

definition unknown_location :: "incident \<Rightarrow> bool" where
  \<comment> \<open>neither a main-building location nor the name of a facility of the registry\<close>
  "unknown_location i =
     (\<not> startsWith (inc_location i) main_prefix \<and>
      inc_location i \<notin> set (map name facilities))"

section \<open>Dates\<close>

text \<open>
  The engine's date parsing on the one form a date input submits, \<open>YYYY-MM-DD\<close>, which
  is midnight UTC of that day in milliseconds since 1970-01-01. Other strings are not
  modelled (they are NaN here); the function only serves the concrete examples below,
  the general statements hold for every \<open>tm\<close>.
\<close>

definition digit :: "16 word \<Rightarrow> int option" where
  "digit c = (if 0x30 \<le> c \<and> c \<le> 0x39 then Some (uint c - 48) else None)"

fun digits :: "jsstring \<Rightarrow> int \<Rightarrow> int option" where
  "digits [] acc = Some acc"
| "digits (c # cs) acc = (case digit c of None \<Rightarrow> None | Some d \<Rightarrow> digits cs (10 * acc + d))"

definition days_from_civil :: "int \<Rightarrow> int \<Rightarrow> int \<Rightarrow> int" where
  "days_from_civil y m d =
     (let y' = (if m \<le> 2 then y - 1 else y);
          era = y' div 400;
          yoe = y' - era * 400;
          mp = (if m > 2 then m - 3 else m + 9);
          doy = (153 * mp + 2) div 5 + d - 1;
          doe = yoe * 365 + yoe div 4 - yoe div 100 + doy
      in era * 146097 + doe - 719468)"

definition days_in_month :: "int \<Rightarrow> int \<Rightarrow> int" where
  "days_in_month y m =
     (if m = 2 then (if y mod 4 = 0 \<and> (y mod 100 \<noteq> 0 \<or> y mod 400 = 0) then 29 else 28)
      else if m = 4 \<or> m = 6 \<or> m = 9 \<or> m = 11 then 30 else 31)"

definition iso_date_time :: "jsstring \<Rightarrow> jsnum" where
  "iso_date_time s =
     (if length s = 10 \<and> s ! 4 = 0x2D \<and> s ! 7 = 0x2D then
        (case (digits (take 4 s) 0, digits (take 2 (drop 5 s)) 0, digits (drop 8 s) 0) of
           (Some y, Some m, Some d) \<Rightarrow>
             if 1 \<le> m \<and> m \<le> 12 \<and> 1 \<le> d \<and> d \<le> days_in_month y m
             then Num (days_from_civil y m d * 86400000) else NaN
         | _ \<Rightarrow> NaN)
      else NaN)"

definition is_space :: "16 word \<Rightarrow> bool" where
  "is_space c = (c = 0x20 \<or> c = 0x09 \<or> c = 0x0A \<or> c = 0x0B \<or> c = 0x0C \<or> c = 0x0D)"

definition parseInt10 :: "jsstring \<Rightarrow> jsnum" where
  \<comment> \<open>the engine's \<open>parseInt(s, 10)\<close> on ASCII input: leading white space, a sign, then
      the longest run of decimal digits, NaN when there is none; it only serves the
      concrete examples\<close>
  "parseInt10 s =
     (let t = dropWhile is_space s;
          neg = (t \<noteq> [] \<and> hd t = 0x2D);
          u = (if t \<noteq> [] \<and> (hd t = 0x2D \<or> hd t = 0x2B) then tl t else t);
          ds = takeWhile (\<lambda>c. digit c \<noteq> None) u
      in if ds = [] then NaN
         else case digits ds 0 of
                None \<Rightarrow> NaN
              | Some v \<Rightarrow> Num (if neg then - v else v))"

section \<open>The incident store and the incident list\<close>

text \<open>
  A form submission reads the clock (\<open>Date.now()\<close>, an integer number of milliseconds)
  and the four fields of the form, and appends one incident to the store. The clock
  reading and \<open>parseInt\<close> are parameters.
\<close>

record form_data =
  form_date :: jsstring
  form_location :: jsstring
  form_count :: jsstring
  form_cause :: jsstring

definition handleAddIncident ::
  "(jsstring \<Rightarrow> jsnum) \<Rightarrow> int \<Rightarrow> form_data \<Rightarrow> incident list \<Rightarrow> incident list" where
  "handleAddIncident parse_int now form incidents =
     incidents @
       [\<lparr>inc_id = now,
         inc_date = form_date form,
         inc_location = form_location form,
         inc_count = parse_int (form_count form),
         inc_cause = form_cause form\<rparr>]"

definition submit_all ::
  "(jsstring \<Rightarrow> jsnum) \<Rightarrow> (int \<times> form_data) list \<Rightarrow> incident list" where
  \<comment> \<open>the store after a sequence of submissions, each with its clock reading, from the
      empty store of the initial state\<close>
  "submit_all parse_int subs =
     foldl (\<lambda>incidents s. handleAddIncident parse_int (fst s) (snd s) incidents) [] subs"

text \<open>
  \<open>Array.prototype.sort\<close> is the engine's: a stable sort by the comparison function,
  in which a NaN result counts as 0. On a consistent comparison function every stable
  sort returns the same array; the model is the insertion sort.
\<close>

fun negative :: "jsnum \<Rightarrow> bool" where
  "negative (Num v) = (v < 0)"
| "negative NaN = False"

fun insert_by :: "('a \<Rightarrow> 'a \<Rightarrow> jsnum) \<Rightarrow> 'a \<Rightarrow> 'a list \<Rightarrow> 'a list" where
  "insert_by cmp v [] = [v]"
| "insert_by cmp v (y # ys) =
     (if negative (cmp v y) then v # y # ys else y # insert_by cmp v ys)"

definition sort_js :: "('a \<Rightarrow> 'a \<Rightarrow> jsnum) \<Rightarrow> 'a list \<Rightarrow> 'a list" where
  "sort_js cmp xs = foldl (\<lambda>sorted v. insert_by cmp v sorted) [] xs"

definition by_date_descending :: "(jsstring \<Rightarrow> jsnum) \<Rightarrow> incident \<Rightarrow> incident \<Rightarrow> jsnum" where
  \<comment> \<open>\<open>(a, b) => new Date(b.date).getTime() - new Date(a.date).getTime()\<close>\<close>
  "by_date_descending tm a b = sub_js (tm (inc_date b)) (tm (inc_date a))"

definition sortedIncidents :: "(jsstring \<Rightarrow> jsnum) \<Rightarrow> incident list \<Rightarrow> incident list" where
  "sortedIncidents tm incidents = sort_js (by_date_descending tm) incidents"

record list_entry =
  entry_incident :: incident
  entry_cause :: jsstring
  entry_active :: bool

definition incident_list ::
  "(jsstring \<Rightarrow> jsnum) \<Rightarrow> int option \<Rightarrow> incident list \<Rightarrow> list_entry list" where
  \<comment> \<open>the entries of the list panel, in the order they are rendered; an entry shows the
      location, date and count of its incident and the truncated cause, and a click selects
      the incident\<close>
  "incident_list tm highlightedIncidentId incidents =
     map (\<lambda>i. \<lparr>entry_incident = i,
                entry_cause = list_cause i,
                entry_active = (highlightedIncidentId = Some (inc_id i))\<rparr>)
       (sortedIncidents tm incidents)"

section \<open>Pointer moves and the tooltip\<close>

text \<open>
  The intersections of the pointer's ray with the interactive objects are the rendering
  library's raycaster's, nearest first: the handler takes them as the list \<open>intersects\<close>
  of the objects hit, and \<open>incident_of\<close> reads \<open>userData.incident\<close> of an object.
  The state is the \<open>hoveredObject\<close> variable of the handler's closure and the tooltip
  state once the handler's updates are applied in order.
\<close>

record tooltip =
  tip_x :: int
  tip_y :: int
  visible :: bool
  content_date :: jsstring
  content_cause :: jsstring

record mouse_event =
  clientX :: int
  clientY :: int

record pointer_state =
  hoveredObject :: "nat option"
  tooltipData :: tooltip

definition initial_pointer_state :: pointer_state where
  "initial_pointer_state =
     \<lparr>hoveredObject = None,
      tooltipData = \<lparr>tip_x = 0, tip_y = 0, visible = False,
                      content_date = [], content_cause = []\<rparr>\<rparr>"

definition onMouseMove ::
  "incident option \<Rightarrow> (nat \<Rightarrow> incident option) \<Rightarrow> nat list \<Rightarrow> mouse_event
     \<Rightarrow> pointer_state \<Rightarrow> pointer_state" where
  "onMouseMove selectedIncident incident_of intersects event st =
     (if selectedIncident \<noteq> None then st
      else case intersects of
        firstIntersect # _ \<Rightarrow>
          (let st1 =
             (if hoveredObject st \<noteq> Some firstIntersect then
                (let st' = st\<lparr>hoveredObject := Some firstIntersect\<rparr>
                 in case incident_of firstIntersect of
                      Some i \<Rightarrow>
                        st'\<lparr>tooltipData :=
                              \<lparr>tip_x = clientX event, tip_y = clientY event, visible = True,
                               content_date = inc_date i, content_cause = inc_cause i\<rparr>\<rparr>
                    | None \<Rightarrow> st')
              else st)
           in st1\<lparr>tooltipData :=
                    (tooltipData st1)\<lparr>tip_x := clientX event, tip_y := clientY event\<rparr>\<rparr>)
      | [] \<Rightarrow>
          (if hoveredObject st \<noteq> None
           then st\<lparr>hoveredObject := None,
                   tooltipData := (tooltipData st)\<lparr>visible := False\<rparr>\<rparr>
           else st))"

section \<open>The scene and the highlight controller\<close>

text \<open>
  Scene objects and materials are references: an object is a natural number, its fields
  are read from the store \<open>objects\<close>; a material is an address of the heap
  \<open>materials\<close>, and \<open>clone()\<close> allocates the next free address. Two materials are
  the same instance when their addresses are equal. The scene graph is a tree of object
  references; \<open>traverse\<close> and \<open>getObjectByName\<close> are the rendering library's, both
  visit an object before its children, in order. A material array is the list of its
  elements' addresses (the arrays themselves are never written to).
\<close>

datatype material =
    MeshStandardMaterial (mat_color: string) (emissive: string) (emissiveIntensity: rat)
  | LineBasicMaterial (mat_color: string)
  | OtherMaterial (mat_color: string)

datatype material_ref = Single nat | Multiple "nat list"

record object3d =
  obj_name :: jsstring
  obj_type :: jsstring
  userData_location :: "jsstring option"
  obj_material :: "material_ref option"

datatype node = Node nat "node list"

record world =
  sceneRef :: "node option"
  objects :: "nat \<Rightarrow> object3d"
  materials :: "nat \<Rightarrow> material"
  next_material :: nat
  highlightedObjects :: "(nat \<times> material_ref) list"

fun traverse :: "node \<Rightarrow> nat list" where
  "traverse (Node obj children) = obj # concat (map traverse children)"

definition getObjectByName :: "world \<Rightarrow> node \<Rightarrow> jsstring \<Rightarrow> nat option" where
  "getObjectByName w scene n = find (\<lambda>obj. obj_name (objects w obj) = n) (traverse scene)"

definition set_material :: "nat \<Rightarrow> material_ref \<Rightarrow> world \<Rightarrow> world" where
  \<comment> \<open>\<open>object.material = m\<close>\<close>
  "set_material obj m w =
     w\<lparr>objects := (objects w)(obj := (objects w obj)\<lparr>obj_material := Some m\<rparr>)\<rparr>"

definition unhighlightAllObjects :: "world \<Rightarrow> world" where
  "unhighlightAllObjects w =
     (foldl (\<lambda>w' h. set_material (fst h) (snd h) w') w (highlightedObjects w))
       \<lparr>highlightedObjects := []\<rparr>"

definition clone :: "nat \<Rightarrow> world \<Rightarrow> nat \<times> world" where
  \<comment> \<open>\<open>m.clone()\<close>: a new material with the fields of \<open>m\<close>\<close>
  "clone m w =
     (next_material w,
      w\<lparr>materials := (materials w)(next_material w := materials w m),
        next_material := Suc (next_material w)\<rparr>)"

fun clone_all :: "nat list \<Rightarrow> world \<Rightarrow> nat list \<times> world" where
  "clone_all [] w = ([], w)"
| "clone_all (m # ms) w =
     (let (c, w1) = clone m w; (cs, w2) = clone_all ms w1 in (c # cs, w2))"

fun clone_ref :: "material_ref \<Rightarrow> world \<Rightarrow> material_ref \<times> world" where
  "clone_ref (Single m) w = (let (c, w1) = clone m w in (Single c, w1))"
| "clone_ref (Multiple ms) w = (let (cs, w1) = clone_all ms w in (Multiple cs, w1))"

fun highlighted_material :: "material \<Rightarrow> material" where
  \<comment> \<open>what \<open>applyHighlight\<close> leaves in a material\<close>
  "highlighted_material (MeshStandardMaterial c e k) = MeshStandardMaterial c ''#facc15'' (6 / 10)"
| "highlighted_material (LineBasicMaterial c) = LineBasicMaterial ''#fde047''"
| "highlighted_material (OtherMaterial c) = OtherMaterial c"

definition applyHighlight :: "nat \<Rightarrow> world \<Rightarrow> world" where
  "applyHighlight m w = w\<lparr>materials := (materials w)(m := highlighted_material (materials w m))\<rparr>"

fun applyHighlight_ref :: "material_ref \<Rightarrow> world \<Rightarrow> world" where
  "applyHighlight_ref (Single m) w = applyHighlight m w"
| "applyHighlight_ref (Multiple ms) w = foldl (\<lambda>w' m. applyHighlight m w') w ms"

definition highlight_object :: "world \<Rightarrow> nat \<Rightarrow> world" where
  \<comment> \<open>the body of the loop over \<open>objectsToHighlight\<close>\<close>
  "highlight_object w obj =
     (if obj_type (objects w obj) = js ''Group'' then w
      else case obj_material (objects w obj) of
        None \<Rightarrow> w
      | Some originalMaterial \<Rightarrow>
          if obj \<in> set (map fst (highlightedObjects w)) then w
          else
            let (highlightMaterial, w1) = clone_ref originalMaterial w;
                w2 = w1\<lparr>highlightedObjects := highlightedObjects w1 @ [(obj, originalMaterial)]\<rparr>;
                w3 = applyHighlight_ref highlightMaterial w2
            in set_material obj highlightMaterial w3)"

definition objectsToHighlight :: "world \<Rightarrow> jsstring \<Rightarrow> node \<Rightarrow> nat list" where
  "objectsToHighlight w locationName scene =
     filter (\<lambda>obj. obj_name (objects w obj) = locationName \<or>
                   userData_location (objects w obj) = Some locationName) (traverse scene) @
     (if startsWith locationName main_prefix
      then (case getObjectByName w scene main_prefix of None \<Rightarrow> [] | Some frame \<Rightarrow> [frame])
      else [])"

definition highlightObjectsByLocation :: "jsstring \<Rightarrow> world \<Rightarrow> world" where
  "highlightObjectsByLocation locationName w =
     (let w0 = unhighlightAllObjects w
      in case sceneRef w0 of
           None \<Rightarrow> w0
         | Some scene \<Rightarrow> foldl highlight_object w0 (objectsToHighlight w0 locationName scene))"

definition pass_targets :: "jsstring \<Rightarrow> world \<Rightarrow> nat list" where
  \<comment> \<open>the objects a highlight pass visits, in order\<close>
  "pass_targets locationName w =
     (case sceneRef w of None \<Rightarrow> [] | Some scene \<Rightarrow> objectsToHighlight w locationName scene)"

definition pass_state :: "jsstring \<Rightarrow> world \<Rightarrow> nat \<Rightarrow> world" where
  \<comment> \<open>the state of a highlight pass once the first \<open>n\<close> objects have been visited\<close>
  "pass_state locationName w n =
     foldl highlight_object (unhighlightAllObjects w)
       (take n (pass_targets locationName (unhighlightAllObjects w)))"

definition restore_record ::
  "(nat \<Rightarrow> object3d) \<Rightarrow> nat \<times> material_ref \<Rightarrow> (nat \<Rightarrow> object3d)" where
  \<comment> \<open>the object store once one record is restored\<close>
  "restore_record os h = os(fst h := (os (fst h))\<lparr>obj_material := Some (snd h)\<rparr>)"

text \<open>
  A small scene for the concrete examples: the scene object 0, the frame of the main
  building 1, the gymnasium group 2 with two meshes 3 and 4 (the second with a material
  array), and a classroom part 5; three materials are allocated.
\<close>

definition example_world :: world where
  "example_world =
     \<lparr>sceneRef = Some (Node 0 [Node 1 [], Node 2 [Node 3 [], Node 4 []], Node 5 []]),
      objects = (\<lambda>obj.
        if obj = 1 then \<lparr>obj_name = main_prefix, obj_type = js ''LineSegments'',
                          userData_location = None, obj_material = Some (Single 0)\<rparr>
        else if obj = 2 then \<lparr>obj_name = gymnasium, obj_type = js ''Group'',
                          userData_location = Some gymnasium, obj_material = None\<rparr>
        else if obj = 3 then \<lparr>obj_name = gymnasium, obj_type = js ''Mesh'',
                          userData_location = Some gymnasium, obj_material = Some (Single 1)\<rparr>
        else if obj = 4 then \<lparr>obj_name = gymnasium, obj_type = js ''Mesh'',
                          userData_location = Some gymnasium,
                          obj_material = Some (Multiple [1, 2])\<rparr>
        else if obj = 5 then \<lparr>obj_name = [], obj_type = js ''Mesh'',
                          userData_location = Some classrooms, obj_material = Some (Single 2)\<rparr>
        else \<lparr>obj_name = [], obj_type = js ''Scene'',
               userData_location = None, obj_material = None\<rparr>),
      materials = (\<lambda>m.
        if m = 0 then LineBasicMaterial ''#ffffff''
        else if m = 1 then MeshStandardMaterial ''#D2B48C'' ''#000000'' 1
        else MeshStandardMaterial ''#F59E0B'' ''#000000'' 1),
      next_material = 3,
      highlightedObjects = []\<rparr>"

section \<open>Truncation\<close>

lemma slice_prefix:
  "0 \<le> k \<Longrightarrow> k \<le> int (length s) \<Longrightarrow> slice s 0 k = take (nat k) s"
  by (simp add: slice_def Let_def)

text \<open>
  C10, as stated, at the bound 0: the string \<open>ab\<close> is longer than 0, and the code
  returns \<open>a...\<close>, four code units instead of the \<open>0 + 2\<close> of the claim, because
  \<open>slice(0, -1)\<close> drops the last code unit instead of keeping \<open>n - 1\<close> of them.
\<close>

theorem truncate_bound_zero:
  "truncate_js (js ''ab'') 0 = js ''a...'' \<and>
   int (length (truncate_js (js ''ab'') 0)) \<noteq> 0 + 2"
  by (simp add: truncate_js_def slice_def js_def)

text \<open>
  C10, amended: for every string and every bound \<open>n \<ge> 1\<close>, \<open>truncate\<close> (here \<open>truncate_js\<close>) returns the
  string unchanged when it has at most \<open>n\<close> code units, and otherwise its first
  \<open>n - 1\<close> code units followed by three dots, \<open>n + 2\<close> code units in all; the incident
  list applies it to the cause with \<open>n = 25\<close>.
\<close>

theorem truncate_spec:
  assumes "1 \<le> n"
  shows "truncate_js s n =
           (if int (length s) \<le> n then s else take (nat (n - 1)) s @ js ''...'') \<and>
         (int (length s) > n \<longrightarrow> int (length (truncate_js s n)) = n + 2) \<and>
         list_cause i = truncate_js (inc_cause i) 25"
  using assms by (simp add: truncate_js_def slice_prefix js_def list_cause_def)

theorem truncate_spec_witness:
  "truncate_js (js ''abcdef'') 4 = js ''abc...'' \<and>
   int (length (truncate_js (js ''abcdef'') 4)) = 4 + 2 \<and>
   truncate_js (js ''abc'') 4 = js ''abc''"
  using truncate_spec [of 4 "js ''abcdef''"] truncate_spec [of 4 "js ''abc''"]
  by (simp add: js_def)

section \<open>Evaluation of the concrete examples\<close>

lemmas string_eval = js_def startsWith_def main_prefix_def classrooms_def hallway_def
  toilets_def gymnasium_def

lemmas date_eval = iso_date_time_def digit_def days_from_civil_def days_in_month_def

lemmas overlay_eval = sync_overlay_def mainBuildingAggregated_def aggregate_step_def
  main_building_objects_def incident_marker_def mainBuildingParts_def find_facility_def
  facilities_def displayed_total_def sum_counts_def shortName_def split_js_def

section \<open>Aggregation of the main-building incidents\<close>

lemma add_js_zero [simp]: "add_js (Num 0) x = x" by (cases x) auto
lemma gt_js_irrefl [simp]: "\<not> gt_js x x" by (cases x) auto

lemma find_facility_name: "find_facility loc = Some f \<Longrightarrow> name f = loc \<and> f \<in> set facilities"
  by (auto simp: find_facility_def find_Some_iff)


lemma find_facility_none: "find_facility loc = None \<longleftrightarrow> loc \<notin> set (map name facilities)"
  by (auto simp: find_facility_def find_None_iff)


lemma aggregated_snoc:
  "mainBuildingAggregated tm (xs @ [x]) = aggregate_step tm (mainBuildingAggregated tm xs) x"
  by (simp add: mainBuildingAggregated_def)

lemma aggregate_of_single: "aggregate_of tm [x] = \<lparr>agg_count = inc_count x, latestIncident = x\<rparr>"
  by (simp add: aggregate_of_def sum_counts_def)

lemma aggregate_of_snoc:
  "ys \<noteq> [] \<Longrightarrow> aggregate_of tm (ys @ [x]) =
     \<lparr>agg_count = add_js (agg_count (aggregate_of tm ys)) (inc_count x),
      latestIncident = pick_latest tm (latestIncident (aggregate_of tm ys)) x\<rparr>"
  by (cases ys) (simp_all add: aggregate_of_def sum_counts_def)

lemma aggregated_lookup:
  "map_of (mainBuildingAggregated tm xs) k =
     (if startsWith k main_prefix \<and> filter (\<lambda>i. inc_location i = k) xs \<noteq> []
      then Some (aggregate_of tm (filter (\<lambda>i. inc_location i = k) xs)) else None)"
proof (induction xs rule: rev_induct)
  case Nil
  show ?case by (simp add: mainBuildingAggregated_def)
next
  case (snoc x xs)
  show ?case
  proof (cases "startsWith (inc_location x) main_prefix")
    case False
    then show ?thesis
      using snoc by (auto simp: aggregated_snoc aggregate_step_def)
  next
    case True
    show ?thesis
    proof (cases "inc_location x = k")
      case False
      then show ?thesis
        using snoc True by (simp add: aggregated_snoc aggregate_step_def Let_def update_conv')
    next
      case same: True
      show ?thesis
      proof (cases "filter (\<lambda>i. inc_location i = k) xs = []")
        case True
        then show ?thesis
          using snoc same \<open>startsWith (inc_location x) main_prefix\<close>
          by (simp add: aggregated_snoc aggregate_step_def Let_def update_conv'
              aggregate_of_single)
      next
        case False
        then show ?thesis
          using snoc same \<open>startsWith (inc_location x) main_prefix\<close>
          by (simp add: aggregated_snoc aggregate_step_def Let_def update_conv'
              aggregate_of_snoc pick_latest_def)
      qed
    qed
  qed
qed

lemma aggregated_distinct: "distinct (map fst (mainBuildingAggregated tm xs))"
proof (induction xs rule: rev_induct)
  case Nil
  show ?case by (simp add: mainBuildingAggregated_def)
next
  case (snoc x xs)
  then show ?case
    by (simp add: aggregated_snoc aggregate_step_def Let_def distinct_update)
qed

lemma aggregated_entry:
  assumes "(k, a) \<in> set (mainBuildingAggregated tm xs)"
  shows "startsWith k main_prefix \<and> filter (\<lambda>i. inc_location i = k) xs \<noteq> [] \<and>
         a = aggregate_of tm (filter (\<lambda>i. inc_location i = k) xs)"
proof -
  have "map_of (mainBuildingAggregated tm xs) k = Some a"
    using assms aggregated_distinct by simp
  then show ?thesis
    by (simp add: aggregated_lookup split: if_splits)
qed

section \<open>Displayed counts\<close>

lemma labels_of_append: "labels_of (xs @ ys) = labels_of xs @ labels_of ys"
  by (induction xs rule: labels_of.induct) auto

lemma labels_of_parts: "labels_of (map (PartMesh l) cs) = []"
  by (induction cs) auto

lemma labels_of_entry:
  "labels_of (main_building_objects hid (k, a)) =
     (if mainBuildingParts k \<noteq> None \<and> find_facility k \<noteq> None
      then [\<lparr>anchor = k, is_highlighted = (Some (inc_id (latestIncident a)) = hid),
             short_name = Some (shortName k), shown_count = agg_count a,
             tagged = latestIncident a\<rparr>]
      else [])"
  by (auto simp: main_building_objects_def labels_of_append labels_of_parts
      dest: find_facility_name split: option.splits)


lemma main_labels_entry:
  "m \<in> set (labels_of (concat (map (main_building_objects hid) acc))) \<Longrightarrow>
   \<exists>a. (anchor m, a) \<in> set acc \<and> shown_count m = agg_count a \<and>
       tagged m = latestIncident a"
proof (induction acc)
  case Nil
  then show ?case by simp
next
  case (Cons e acc)
  obtain k' a' where e: "e = (k', a')" by (cases e)
  from Cons show ?case
    by (auto simp: e labels_of_append labels_of_entry split: if_splits)
qed


lemma interactive_objects:
  "interactiveObjects (sync_overlay tm hid xs) =
     labels_of (concat (map (main_building_objects hid) (mainBuildingAggregated tm xs))) @
     concat (map (incident_marker hid) xs)"
  by (simp add: sync_overlay_def Let_def)



section \<open>The latest incident of a sub-location\<close>

lemma le_js_refl: "x \<noteq> NaN \<Longrightarrow> le_js x x" by (cases x) auto
lemma not_gt_js: "x \<noteq> NaN \<Longrightarrow> y \<noteq> NaN \<Longrightarrow> \<not> gt_js x y \<Longrightarrow> le_js x y"
  by (cases x; cases y) auto
lemma le_gt_js: "le_js x y \<Longrightarrow> gt_js z y \<Longrightarrow> gt_js z x \<and> le_js x z"
  by (cases x; cases y; cases z) auto

lemma latest_member: "foldl (pick_latest tm) l ys \<in> insert l (set ys)"
  by (induction ys arbitrary: l) (auto simp: pick_latest_def)

lemma latest_first_maximum:
  assumes "ys \<noteq> []" and "\<forall>i \<in> set ys. tm (inc_date i) \<noteq> NaN"
  shows "\<exists>pre post. ys = pre @ foldl (pick_latest tm) (hd ys) (tl ys) # post \<and>
           (\<forall>i \<in> set pre. gt_js (tm (inc_date (foldl (pick_latest tm) (hd ys) (tl ys))))
                                (tm (inc_date i))) \<and>
           (\<forall>i \<in> set post. le_js (tm (inc_date i))
                                (tm (inc_date (foldl (pick_latest tm) (hd ys) (tl ys)))))"
  using assms
proof (induction ys rule: rev_induct)
  case Nil
  then show ?case by simp
next
  case (snoc z ys)
  show ?case
  proof (cases "ys = []")
    case True
    have "[z] = [] @ z # []" by simp
    then show ?thesis
      unfolding True by (intro exI [of _ "[]"]) simp
  next
    case False
    let ?l = "foldl (pick_latest tm) (hd ys) (tl ys)"
    from snoc False obtain pre post where dec: "ys = pre @ ?l # post"
      and pre: "\<forall>i \<in> set pre. gt_js (tm (inc_date ?l)) (tm (inc_date i))"
      and post: "\<forall>i \<in> set post. le_js (tm (inc_date i)) (tm (inc_date ?l))"
      by auto
    have l: "tm (inc_date ?l) \<noteq> NaN"
      using snoc.prems(2) dec by (metis in_set_conv_decomp set_append UnI1)
    have z: "tm (inc_date z) \<noteq> NaN"
      using snoc.prems(2) by simp
    have new: "foldl (pick_latest tm) (hd (ys @ [z])) (tl (ys @ [z])) = pick_latest tm ?l z"
      using False by simp
    show ?thesis
    proof (cases "gt_js (tm (inc_date z)) (tm (inc_date ?l))")
      case True
      have "\<forall>i \<in> set ys. gt_js (tm (inc_date z)) (tm (inc_date i))"
      proof
        fix i assume "i \<in> set ys"
        then have "i \<in> set pre \<or> i = ?l \<or> i \<in> set post"
          using dec by (metis Un_iff set_ConsD set_append)
        then show "gt_js (tm (inc_date z)) (tm (inc_date i))"
        proof (elim disjE)
          assume "i \<in> set pre"
          then have "gt_js (tm (inc_date ?l)) (tm (inc_date i))" using pre by simp
          then show ?thesis using True
            by (cases "tm (inc_date z)"; cases "tm (inc_date ?l)"; cases "tm (inc_date i)") auto
        next
          assume "i = ?l"
          then show ?thesis using True by simp
        next
          assume "i \<in> set post"
          then have "le_js (tm (inc_date i)) (tm (inc_date ?l))" using post by simp
          then show ?thesis using True le_gt_js by blast
        qed
      qed
      then have "ys @ [z] = ys @ pick_latest tm ?l z # [] \<and>
          (\<forall>i \<in> set ys. gt_js (tm (inc_date (pick_latest tm ?l z))) (tm (inc_date i))) \<and>
          (\<forall>i \<in> set []. le_js (tm (inc_date i)) (tm (inc_date (pick_latest tm ?l z))))"
        using True by (simp add: pick_latest_def)
      then show ?thesis
        unfolding new by blast
    next
      case False
      then have "le_js (tm (inc_date z)) (tm (inc_date ?l))"
        using l z not_gt_js by blast
      then have "ys @ [z] = pre @ pick_latest tm ?l z # (post @ [z]) \<and>
          (\<forall>i \<in> set pre. gt_js (tm (inc_date (pick_latest tm ?l z))) (tm (inc_date i))) \<and>
          (\<forall>i \<in> set (post @ [z]). le_js (tm (inc_date i)) (tm (inc_date (pick_latest tm ?l z))))"
        using False dec pre post by (simp add: pick_latest_def)
      then show ?thesis
        unfolding new by blast
    qed
  qed
qed

text \<open>
  C2, as stated, on two incidents of the classrooms with the same date: the aggregate
  keeps the first one (id 1), not the one encountered last (id 2), because the comparison
  of the dates is strict.
\<close>

theorem latest_incident_last_of_equal_dates_fails:
  "map (\<lambda>e. (fst e = classrooms, agg_count (snd e), inc_id (latestIncident (snd e))))
     (mainBuildingAggregated iso_date_time
        [\<lparr>inc_id = 1, inc_date = js ''2024-05-01'', inc_location = classrooms,
           inc_count = Num 2, inc_cause = js ''slip''\<rparr>,
         \<lparr>inc_id = 2, inc_date = js ''2024-05-01'', inc_location = classrooms,
           inc_count = Num 5, inc_cause = js ''fall''\<rparr>])
   = [(True, Num 7, 1)]"
  by (simp add: overlay_eval string_eval date_eval)

text \<open>
  C2, amended: when the dates of the incidents of a sub-location all parse, the tracked
  latest incident has the maximum date, and among incidents of equal date the one
  encountered first in insertion order wins: every incident of the sub-location before it
  has a strictly earlier date, every one after it a date that is not later.
\<close>

theorem latest_incident_first_maximum:
  assumes "(k, a) \<in> set (mainBuildingAggregated tm incidents)"
    and "\<forall>i \<in> set incidents. inc_location i = k \<longrightarrow> tm (inc_date i) \<noteq> NaN"
  shows "\<exists>pre post.
           filter (\<lambda>i. inc_location i = k) incidents = pre @ latestIncident a # post \<and>
           (\<forall>i \<in> set pre. gt_js (tm (inc_date (latestIncident a))) (tm (inc_date i))) \<and>
           (\<forall>i \<in> set post. le_js (tm (inc_date i)) (tm (inc_date (latestIncident a))))"
proof -
  let ?ys = "filter (\<lambda>i. inc_location i = k) incidents"
  have "?ys \<noteq> []" and a: "a = aggregate_of tm ?ys"
    using aggregated_entry [OF assms(1)] by auto
  moreover have "\<forall>i \<in> set ?ys. tm (inc_date i) \<noteq> NaN"
    using assms(2) by simp
  ultimately show ?thesis
    using latest_first_maximum [of ?ys tm] by (simp add: aggregate_of_def)
qed

theorem latest_incident_first_maximum_witness:
  "(classrooms,
    \<lparr>agg_count = Num 10,
     latestIncident = \<lparr>inc_id = 2, inc_date = js ''2024-05-01'', inc_location = classrooms,
                        inc_count = Num 2, inc_cause = js ''slip''\<rparr>\<rparr>)
     \<in> set (mainBuildingAggregated iso_date_time
        [\<lparr>inc_id = 1, inc_date = js ''2024-04-01'', inc_location = classrooms,
           inc_count = Num 5, inc_cause = js ''trip''\<rparr>,
         \<lparr>inc_id = 2, inc_date = js ''2024-05-01'', inc_location = classrooms,
           inc_count = Num 2, inc_cause = js ''slip''\<rparr>,
         \<lparr>inc_id = 3, inc_date = js ''2024-05-01'', inc_location = classrooms,
           inc_count = Num 3, inc_cause = js ''fall''\<rparr>]) \<and>
   (\<exists>pre post.
      [\<lparr>inc_id = 1, inc_date = js ''2024-04-01'', inc_location = classrooms,
         inc_count = Num 5, inc_cause = js ''trip''\<rparr>,
       \<lparr>inc_id = 2, inc_date = js ''2024-05-01'', inc_location = classrooms,
         inc_count = Num 2, inc_cause = js ''slip''\<rparr>,
       \<lparr>inc_id = 3, inc_date = js ''2024-05-01'', inc_location = classrooms,
         inc_count = Num 3, inc_cause = js ''fall''\<rparr>] =
      pre @ \<lparr>inc_id = 2, inc_date = js ''2024-05-01'', inc_location = classrooms,
              inc_count = Num 2, inc_cause = js ''slip''\<rparr> # post \<and>
      (\<forall>i \<in> set pre. gt_js (iso_date_time (js ''2024-05-01'')) (iso_date_time (inc_date i))) \<and>
      (\<forall>i \<in> set post. le_js (iso_date_time (inc_date i)) (iso_date_time (js ''2024-05-01''))))"
proof -
  let ?xs = "[\<lparr>inc_id = 1, inc_date = js ''2024-04-01'', inc_location = classrooms,
           inc_count = Num 5, inc_cause = js ''trip''\<rparr>,
         \<lparr>inc_id = 2, inc_date = js ''2024-05-01'', inc_location = classrooms,
           inc_count = Num 2, inc_cause = js ''slip''\<rparr>,
         \<lparr>inc_id = 3, inc_date = js ''2024-05-01'', inc_location = classrooms,
           inc_count = Num 3, inc_cause = js ''fall''\<rparr>]"
  let ?a = "\<lparr>agg_count = Num 10,
     latestIncident = \<lparr>inc_id = 2, inc_date = js ''2024-05-01'', inc_location = classrooms,
                        inc_count = Num 2, inc_cause = js ''slip''\<rparr>\<rparr>"
  have mem: "(classrooms, ?a) \<in> set (mainBuildingAggregated iso_date_time ?xs)"
    by (simp add: overlay_eval string_eval date_eval)
  have valid: "\<forall>i \<in> set ?xs. inc_location i = classrooms \<longrightarrow> iso_date_time (inc_date i) \<noteq> NaN"
    by (simp add: string_eval date_eval)
  from latest_incident_first_maximum [OF mem valid] mem
  show ?thesis by simp
qed

section \<open>Incidents at unknown locations\<close>

lemma not_in_image: "\<forall>m \<in> S. f m \<noteq> b \<Longrightarrow> b \<notin> f ` S"
  by auto

lemma unknown_location_find:
  "unknown_location i \<longleftrightarrow>
     \<not> startsWith (inc_location i) main_prefix \<and> find_facility (inc_location i) = None"
  by (simp add: unknown_location_def find_facility_none)

lemma foldl_filter_skip:
  "(\<And>a x. \<not> P x \<Longrightarrow> f a x = a) \<Longrightarrow> foldl f a (filter P xs) = foldl f a xs"
  by (induction xs arbitrary: a) auto

lemma aggregated_skips_unknown:
  "mainBuildingAggregated tm (filter (\<lambda>i. \<not> unknown_location i) xs) =
   mainBuildingAggregated tm xs"
  unfolding mainBuildingAggregated_def
  by (rule foldl_filter_skip) (simp add: unknown_location_def aggregate_step_def)

lemma markers_skip_unknown:
  "concat (map (incident_marker hid) (filter (\<lambda>i. \<not> unknown_location i) xs)) =
   concat (map (incident_marker hid) xs)"
  by (induction xs) (auto simp: incident_marker_def unknown_location_find)

lemma incident_marker_tagged:
  "m \<in> set (incident_marker hid x) \<Longrightarrow>
     tagged m = x \<and> find_facility (inc_location x) \<noteq> None"
  by (cases "find_facility (inc_location x)")
    (auto simp: incident_marker_def split: if_splits)

lemma marker_tagged:
  "m \<in> set (concat (map (incident_marker hid) xs)) \<Longrightarrow>
     tagged m \<in> set xs \<and> find_facility (inc_location (tagged m)) \<noteq> None"
  using incident_marker_tagged by fastforce

lemma label_tagged:
  assumes "m \<in> set (labels_of (concat (map (main_building_objects hid)
                       (mainBuildingAggregated tm xs))))"
  shows "tagged m \<in> set xs \<and> startsWith (inc_location (tagged m)) main_prefix"
proof -
  obtain a where a: "(anchor m, a) \<in> set (mainBuildingAggregated tm xs)"
    and t: "tagged m = latestIncident a"
    using main_labels_entry [OF assms] by blast
  let ?ys = "filter (\<lambda>i. inc_location i = anchor m) xs"
  have pre: "startsWith (anchor m) main_prefix" and ne: "?ys \<noteq> []"
    and "a = aggregate_of tm ?ys"
    using aggregated_entry [OF a] by auto
  then have "tagged m \<in> insert (hd ?ys) (set (tl ?ys))"
    using t latest_member by (simp add: aggregate_of_def)
  then have "tagged m \<in> set ?ys"
    using ne by (cases ?ys) auto
  then show ?thesis
    using pre by auto
qed

text \<open>
  C6: incidents whose location neither starts with the main-building prefix nor names a
  facility of the registry leave the overlay as it is without them (the synchronisation is
  a total function: there is no error to raise), and no marker or label is tagged with
  one of them.
\<close>

theorem unknown_location_skipped:
  "sync_overlay tm highlightedIncidentId incidents =
     sync_overlay tm highlightedIncidentId (filter (\<lambda>i. \<not> unknown_location i) incidents) \<and>
   (\<forall>i \<in> set incidents. unknown_location i \<longrightarrow>
      (\<forall>m \<in> set (interactiveObjects (sync_overlay tm highlightedIncidentId incidents)).
         tagged m \<noteq> i))"
proof
  show "sync_overlay tm highlightedIncidentId incidents =
     sync_overlay tm highlightedIncidentId (filter (\<lambda>i. \<not> unknown_location i) incidents)"
    by (simp add: sync_overlay_def aggregated_skips_unknown markers_skip_unknown)
  show "\<forall>i \<in> set incidents. unknown_location i \<longrightarrow>
      (\<forall>m \<in> set (interactiveObjects (sync_overlay tm highlightedIncidentId incidents)).
         tagged m \<noteq> i)"
    using marker_tagged label_tagged
    by (fastforce simp: interactive_objects unknown_location_find)
qed

theorem unknown_location_skipped_witness:
  "map (\<lambda>m. inc_id (tagged m))
     (interactiveObjects (sync_overlay iso_date_time None
        [\<lparr>inc_id = 1, inc_date = js ''2024-05-01'', inc_location = gymnasium,
           inc_count = Num 2, inc_cause = js ''slip''\<rparr>,
         \<lparr>inc_id = 2, inc_date = js ''2024-05-02'', inc_location = js ''roof'',
           inc_count = Num 3, inc_cause = js ''fall''\<rparr>,
         \<lparr>inc_id = 3, inc_date = js ''2024-04-01'', inc_location = classrooms,
           inc_count = Num 5, inc_cause = js ''trip''\<rparr>])) = [3, 1] \<and>
   \<lparr>inc_id = 2, inc_date = js ''2024-05-02'', inc_location = js ''roof'',
           inc_count = Num 3, inc_cause = js ''fall''\<rparr>
     \<notin> tagged ` set (interactiveObjects (sync_overlay iso_date_time None
        [\<lparr>inc_id = 1, inc_date = js ''2024-05-01'', inc_location = gymnasium,
           inc_count = Num 2, inc_cause = js ''slip''\<rparr>,
         \<lparr>inc_id = 2, inc_date = js ''2024-05-02'', inc_location = js ''roof'',
           inc_count = Num 3, inc_cause = js ''fall''\<rparr>,
         \<lparr>inc_id = 3, inc_date = js ''2024-04-01'', inc_location = classrooms,
           inc_count = Num 5, inc_cause = js ''trip''\<rparr>]))"
proof -
  let ?xs = "[\<lparr>inc_id = 1, inc_date = js ''2024-05-01'', inc_location = gymnasium,
           inc_count = Num 2, inc_cause = js ''slip''\<rparr>,
         \<lparr>inc_id = 2, inc_date = js ''2024-05-02'', inc_location = js ''roof'',
           inc_count = Num 3, inc_cause = js ''fall''\<rparr>,
         \<lparr>inc_id = 3, inc_date = js ''2024-04-01'', inc_location = classrooms,
           inc_count = Num 5, inc_cause = js ''trip''\<rparr>]"
  let ?bad = "\<lparr>inc_id = 2, inc_date = js ''2024-05-02'', inc_location = js ''roof'',
           inc_count = Num 3, inc_cause = js ''fall''\<rparr>"
  note skip = unknown_location_skipped [of iso_date_time None ?xs]
  have "map (\<lambda>m. inc_id (tagged m)) (interactiveObjects (sync_overlay iso_date_time None ?xs)) =
      [3, 1]"
    using conjunct1 [OF skip]
    by (simp add: unknown_location_def overlay_eval string_eval date_eval Let_def)
  moreover have "unknown_location ?bad"
    by (simp add: unknown_location_def facilities_def string_eval)
  then have "\<forall>m \<in> set (interactiveObjects (sync_overlay iso_date_time None ?xs)).
      tagged m \<noteq> ?bad"
    using conjunct2 [OF skip] by simp
  then have "?bad \<notin> tagged ` set (interactiveObjects (sync_overlay iso_date_time None ?xs))"
    by (rule not_in_image)
  ultimately show ?thesis by (rule conjI)
qed

section \<open>The incident list\<close>

lemma insert_by_mset: "mset (insert_by cmp v ys) = add_mset v (mset ys)"
  by (induction ys) auto

lemma sort_js_snoc: "sort_js cmp (xs @ [v]) = insert_by cmp v (sort_js cmp xs)"
  by (simp add: sort_js_def)

lemma sort_js_mset: "mset (sort_js cmp xs) = mset xs"
proof (induction xs rule: rev_induct)
  case Nil
  show ?case by (simp add: sort_js_def)
next
  case (snoc v xs)
  then show ?case by (simp add: sort_js_snoc insert_by_mset)
qed

lemma insert_by_set: "set (insert_by cmp v ys) = insert v (set ys)"
  by (induction ys) auto

lemma insert_by_date_sorted:
  assumes "sorted_wrt (\<lambda>a b. le_js (tm (inc_date b)) (tm (inc_date a))) ys"
    and "tm (inc_date v) \<noteq> NaN" and "\<forall>i \<in> set ys. tm (inc_date i) \<noteq> NaN"
  shows "sorted_wrt (\<lambda>a b. le_js (tm (inc_date b)) (tm (inc_date a)))
           (insert_by (by_date_descending tm) v ys)"
  using assms
proof (induction ys)
  case Nil
  then show ?case by simp
next
  case (Cons y ys)
  obtain a where a: "tm (inc_date v) = Num a"
    using Cons.prems(2) by (cases "tm (inc_date v)") auto
  obtain b where b: "tm (inc_date y) = Num b"
    using Cons.prems(3) by (cases "tm (inc_date y)") auto
  show ?case
  proof (cases "negative (by_date_descending tm v y)")
    case True
    then have "b < a" by (simp add: by_date_descending_def a b)
    have below: "\<forall>i \<in> set ys. le_js (tm (inc_date i)) (Num b)"
      using Cons.prems(1) b by simp
    have "\<forall>i \<in> set ys. le_js (tm (inc_date i)) (Num a)"
    proof
      fix i assume "i \<in> set ys"
      then have "le_js (tm (inc_date i)) (Num b)" using below by simp
      then show "le_js (tm (inc_date i)) (Num a)"
        using \<open>b < a\<close> by (cases "tm (inc_date i)") auto
    qed
    then show ?thesis
      using True \<open>b < a\<close> Cons.prems(1) a b by simp
  next
    case False
    then have "a \<le> b" by (simp add: by_date_descending_def a b)
    then show ?thesis
      using False Cons a b by (auto simp: insert_by_set)
  qed
qed

lemma sort_js_date_sorted:
  assumes "\<forall>i \<in> set xs. tm (inc_date i) \<noteq> NaN"
  shows "sorted_wrt (\<lambda>a b. le_js (tm (inc_date b)) (tm (inc_date a)))
           (sort_js (by_date_descending tm) xs)"
  using assms
proof (induction xs rule: rev_induct)
  case Nil
  show ?case by (simp add: sort_js_def)
next
  case (snoc v xs)
  have "set (sort_js (by_date_descending tm) xs) = set xs"
    using sort_js_mset by (metis set_mset_mset)
  then show ?case
    using snoc by (simp add: sort_js_snoc insert_by_date_sorted)
qed

lemma example_times:
  "iso_date_time (js ''2024-01-05'') = Num 1704412800000"
  "iso_date_time (js ''2024-03-01'') = Num 1709251200000"
  "iso_date_time (js ''2024-02-10'') = Num 1707523200000"
  by (simp_all add: date_eval js_def)

lemma example_order:
  assumes "map inc_date incidents = [js ''2024-01-05'', js ''2024-03-01'', js ''2024-02-10'']"
  shows "map inc_date (sortedIncidents iso_date_time incidents) =
           [js ''2024-03-01'', js ''2024-02-10'', js ''2024-01-05'']"
proof -
  from assms obtain a b c where abc: "incidents = [a, b, c]"
    and "inc_date a = js ''2024-01-05''" and "inc_date b = js ''2024-03-01''"
    and "inc_date c = js ''2024-02-10''"
    by auto
  then show ?thesis
    by (simp add: sortedIncidents_def sort_js_def by_date_descending_def example_times)
qed

text \<open>
  C7: the list panel renders the stored incidents, each once, and, their dates being dates
  (every one parses to a time), in descending order of date; incidents with the dates
  2024-01-05, 2024-03-01, 2024-02-10 are rendered in the order 2024-03-01, 2024-02-10,
  2024-01-05.
\<close>

theorem incident_list_sorted:
  "mset (map entry_incident (incident_list tm highlightedIncidentId incidents)) = mset incidents \<and>
   ((\<forall>i \<in> set incidents. tm (inc_date i) \<noteq> NaN) \<longrightarrow>
      sorted_wrt (\<lambda>a b. le_js (tm (inc_date b)) (tm (inc_date a)))
        (map entry_incident (incident_list tm highlightedIncidentId incidents))) \<and>
   (map inc_date incidents = [js ''2024-01-05'', js ''2024-03-01'', js ''2024-02-10''] \<longrightarrow>
      map (\<lambda>e. inc_date (entry_incident e))
        (incident_list iso_date_time highlightedIncidentId incidents) =
      [js ''2024-03-01'', js ''2024-02-10'', js ''2024-01-05''])"
proof -
  have entries: "map entry_incident (incident_list t h incidents) = sortedIncidents t incidents"
    for t h
    by (simp add: incident_list_def comp_def)
  have dates: "map (\<lambda>e. inc_date (entry_incident e)) (incident_list t h incidents) =
      map inc_date (sortedIncidents t incidents)" for t h
    by (simp add: incident_list_def comp_def)
  show ?thesis
    unfolding entries dates
    by (simp add: sortedIncidents_def sort_js_mset sort_js_date_sorted example_order [unfolded sortedIncidents_def])
qed

theorem incident_list_sorted_witness:
  "map (\<lambda>e. inc_id (entry_incident e))
     (incident_list iso_date_time None
        [\<lparr>inc_id = 1, inc_date = js ''2024-01-05'', inc_location = gymnasium,
           inc_count = Num 2, inc_cause = js ''slip''\<rparr>,
         \<lparr>inc_id = 2, inc_date = js ''2024-03-01'', inc_location = classrooms,
           inc_count = Num 3, inc_cause = js ''fall''\<rparr>,
         \<lparr>inc_id = 3, inc_date = js ''2024-02-10'', inc_location = gymnasium,
           inc_count = Num 5, inc_cause = js ''trip''\<rparr>]) = [2, 3, 1] \<and>
   map (\<lambda>e. inc_date (entry_incident e))
     (incident_list iso_date_time None
        [\<lparr>inc_id = 1, inc_date = js ''2024-01-05'', inc_location = gymnasium,
           inc_count = Num 2, inc_cause = js ''slip''\<rparr>,
         \<lparr>inc_id = 2, inc_date = js ''2024-03-01'', inc_location = classrooms,
           inc_count = Num 3, inc_cause = js ''fall''\<rparr>,
         \<lparr>inc_id = 3, inc_date = js ''2024-02-10'', inc_location = gymnasium,
           inc_count = Num 5, inc_cause = js ''trip''\<rparr>]) =
     [js ''2024-03-01'', js ''2024-02-10'', js ''2024-01-05''] \<and>
   sorted_wrt (\<lambda>a b. le_js (iso_date_time (inc_date b)) (iso_date_time (inc_date a)))
     (map entry_incident (incident_list iso_date_time None
        [\<lparr>inc_id = 1, inc_date = js ''2024-01-05'', inc_location = gymnasium,
           inc_count = Num 2, inc_cause = js ''slip''\<rparr>,
         \<lparr>inc_id = 2, inc_date = js ''2024-03-01'', inc_location = classrooms,
           inc_count = Num 3, inc_cause = js ''fall''\<rparr>,
         \<lparr>inc_id = 3, inc_date = js ''2024-02-10'', inc_location = gymnasium,
           inc_count = Num 5, inc_cause = js ''trip''\<rparr>]))"
proof -
  let ?xs = "[\<lparr>inc_id = 1, inc_date = js ''2024-01-05'', inc_location = gymnasium,
           inc_count = Num 2, inc_cause = js ''slip''\<rparr>,
         \<lparr>inc_id = 2, inc_date = js ''2024-03-01'', inc_location = classrooms,
           inc_count = Num 3, inc_cause = js ''fall''\<rparr>,
         \<lparr>inc_id = 3, inc_date = js ''2024-02-10'', inc_location = gymnasium,
           inc_count = Num 5, inc_cause = js ''trip''\<rparr>]"
  have valid: "\<forall>i \<in> set ?xs. iso_date_time (inc_date i) \<noteq> NaN"
    by (simp add: example_times)
  have dates: "map inc_date ?xs = [js ''2024-01-05'', js ''2024-03-01'', js ''2024-02-10'']"
    by simp
  have ids: "map (\<lambda>e. inc_id (entry_incident e)) (incident_list iso_date_time None ?xs) = [2, 3, 1]"
    by (simp add: incident_list_def sortedIncidents_def sort_js_def by_date_descending_def
        example_times)
  from incident_list_sorted [of iso_date_time None ?xs] valid dates ids
  show ?thesis by blast
qed

section \<open>Form submissions\<close>

text \<open>
  C9, as stated, on two submissions whose clock readings are the same millisecond: the
  two incidents of the store have the same id.
\<close>

theorem submissions_in_one_millisecond:
  "map inc_id
     (submit_all parseInt10
        [(1714521600000, \<lparr>form_date = js ''2024-05-01'', form_location = gymnasium,
                           form_count = js ''3'', form_cause = js ''slip''\<rparr>),
         (1714521600000, \<lparr>form_date = js ''2024-05-01'', form_location = gymnasium,
                           form_count = js ''1'', form_cause = js ''fall''\<rparr>)]) =
     [1714521600000, 1714521600000] \<and>
   \<not> distinct (map inc_id
     (submit_all parseInt10
        [(1714521600000, \<lparr>form_date = js ''2024-05-01'', form_location = gymnasium,
                           form_count = js ''3'', form_cause = js ''slip''\<rparr>),
         (1714521600000, \<lparr>form_date = js ''2024-05-01'', form_location = gymnasium,
                           form_count = js ''1'', form_cause = js ''fall''\<rparr>)]))"
  by (simp add: submit_all_def handleAddIncident_def)

lemma submit_all_ids: "map inc_id (submit_all parse_int subs) = map fst subs"
  by (induction subs rule: rev_induct) (simp_all add: submit_all_def handleAddIncident_def)

text \<open>
  C9, amended: a form submission appends exactly one incident to the end of the store,
  whose id is the clock reading of the submission; the ids stay pairwise distinct when
  that reading differs from the ids of the store, so the ids of a store are pairwise
  distinct whenever the clock readings of the submissions that built it are.
\<close>

theorem handleAddIncident_appends:
  "handleAddIncident parse_int now form incidents =
     incidents @ [\<lparr>inc_id = now, inc_date = form_date form,
                   inc_location = form_location form,
                   inc_count = parse_int (form_count form),
                   inc_cause = form_cause form\<rparr>] \<and>
   (distinct (map inc_id incidents) \<and> now \<notin> inc_id ` set incidents \<longrightarrow>
      distinct (map inc_id (handleAddIncident parse_int now form incidents))) \<and>
   (distinct (map fst subs) \<longrightarrow> distinct (map inc_id (submit_all parse_int subs)))"
  by (simp add: submit_all_ids) (simp add: handleAddIncident_def)

theorem handleAddIncident_appends_witness:
  "handleAddIncident parseInt10 1714521600001
     \<lparr>form_date = js ''2024-05-02'', form_location = gymnasium,
      form_count = js ''1'', form_cause = js ''fall''\<rparr>
     [\<lparr>inc_id = 1714521600000, inc_date = js ''2024-05-01'', inc_location = gymnasium,
        inc_count = Num 3, inc_cause = js ''slip''\<rparr>] =
     [\<lparr>inc_id = 1714521600000, inc_date = js ''2024-05-01'', inc_location = gymnasium,
        inc_count = Num 3, inc_cause = js ''slip''\<rparr>,
      \<lparr>inc_id = 1714521600001, inc_date = js ''2024-05-02'', inc_location = gymnasium,
        inc_count = Num 1, inc_cause = js ''fall''\<rparr>] \<and>
   distinct (map inc_id (handleAddIncident parseInt10 1714521600001
     \<lparr>form_date = js ''2024-05-02'', form_location = gymnasium,
      form_count = js ''1'', form_cause = js ''fall''\<rparr>
     [\<lparr>inc_id = 1714521600000, inc_date = js ''2024-05-01'', inc_location = gymnasium,
        inc_count = Num 3, inc_cause = js ''slip''\<rparr>])) \<and>
   distinct (map inc_id (submit_all parseInt10
     [(1714521600000, \<lparr>form_date = js ''2024-05-01'', form_location = gymnasium,
                        form_count = js ''3'', form_cause = js ''slip''\<rparr>),
      (1714521600001, \<lparr>form_date = js ''2024-05-02'', form_location = gymnasium,
                        form_count = js ''1'', form_cause = js ''fall''\<rparr>)]))"
proof -
  have p: "parseInt10 (js ''1'') = Num 1"
    by (simp add: parseInt10_def is_space_def digit_def js_def)
  from handleAddIncident_appends [of parseInt10 1714521600001
     "\<lparr>form_date = js ''2024-05-02'', form_location = gymnasium,
      form_count = js ''1'', form_cause = js ''fall''\<rparr>"
     "[\<lparr>inc_id = 1714521600000, inc_date = js ''2024-05-01'', inc_location = gymnasium,
        inc_count = Num 3, inc_cause = js ''slip''\<rparr>]"
     "[(1714521600000, \<lparr>form_date = js ''2024-05-01'', form_location = gymnasium,
                        form_count = js ''3'', form_cause = js ''slip''\<rparr>),
      (1714521600001, \<lparr>form_date = js ''2024-05-02'', form_location = gymnasium,
                        form_count = js ''1'', form_cause = js ''fall''\<rparr>)]"]
  show ?thesis by (simp add: p)
qed

section \<open>The tooltip\<close>

text \<open>
  C8, as stated, on a move that hits nothing: from the initial state, a move to
  \<open>(10, 20)\<close> whose ray intersects no interactive object leaves the tooltip at
  \<open>(0, 0)\<close>.
\<close>

theorem pointer_miss_keeps_position:
  "tip_x (tooltipData (onMouseMove None Map.empty [] \<lparr>clientX = 10, clientY = 20\<rparr>
      initial_pointer_state)) = 0 \<and>
   tip_y (tooltipData (onMouseMove None Map.empty [] \<lparr>clientX = 10, clientY = 20\<rparr>
      initial_pointer_state)) = 0 \<and>
   tip_x (tooltipData (onMouseMove None Map.empty [] \<lparr>clientX = 10, clientY = 20\<rparr>
      initial_pointer_state)) \<noteq> clientX \<lparr>clientX = 10, clientY = 20\<rparr>"
  by (simp add: onMouseMove_def initial_pointer_state_def)

text \<open>
  C8, amended: when no incident is selected, a pointer move whose ray intersects an
  interactive object leaves the tooltip at the raw pointer coordinates of the event,
  whether the hovered object changed or not; a move whose ray intersects no interactive
  object leaves the tooltip's position as it was.
\<close>

theorem tooltip_tracks_pointer_on_hit:
  assumes "selectedIncident = None"
  shows "(intersects \<noteq> [] \<longrightarrow>
            tip_x (tooltipData (onMouseMove selectedIncident incident_of intersects event st)) =
              clientX event \<and>
            tip_y (tooltipData (onMouseMove selectedIncident incident_of intersects event st)) =
              clientY event) \<and>
         (intersects = [] \<longrightarrow>
            tip_x (tooltipData (onMouseMove selectedIncident incident_of intersects event st)) =
              tip_x (tooltipData st) \<and>
            tip_y (tooltipData (onMouseMove selectedIncident incident_of intersects event st)) =
              tip_y (tooltipData st))"
  using assms
  by (cases intersects) (simp_all add: onMouseMove_def Let_def split: option.splits)

theorem tooltip_tracks_pointer_on_hit_witness:
  "tip_x (tooltipData (onMouseMove None Map.empty [7] \<lparr>clientX = 10, clientY = 20\<rparr>
      initial_pointer_state)) = 10 \<and>
   tip_y (tooltipData (onMouseMove None Map.empty [7] \<lparr>clientX = 10, clientY = 20\<rparr>
      initial_pointer_state)) = 20 \<and>
   tip_x (tooltipData (onMouseMove None Map.empty [] \<lparr>clientX = 10, clientY = 20\<rparr>
      initial_pointer_state)) = tip_x (tooltipData initial_pointer_state)"
  using tooltip_tracks_pointer_on_hit [of None "[7]" Map.empty
      "\<lparr>clientX = 10, clientY = 20\<rparr>" initial_pointer_state]
    tooltip_tracks_pointer_on_hit [of None "[]" Map.empty
      "\<lparr>clientX = 10, clientY = 20\<rparr>" initial_pointer_state]
  by simp

section \<open>Highlighting and restoring\<close>

lemmas highlight_eval = highlightObjectsByLocation_def unhighlightAllObjects_def
  objectsToHighlight_def getObjectByName_def highlight_object_def set_material_def
  clone_def applyHighlight_def pass_state_def pass_targets_def example_world_def Let_def

lemma clone_all_frame:
  "objects (snd (clone_all ms w)) = objects w \<and>
   highlightedObjects (snd (clone_all ms w)) = highlightedObjects w \<and>
   sceneRef (snd (clone_all ms w)) = sceneRef w"
  by (induction ms arbitrary: w) (simp_all add: clone_def split_beta Let_def)

lemma clone_ref_frame:
  "objects (snd (clone_ref m w)) = objects w \<and>
   highlightedObjects (snd (clone_ref m w)) = highlightedObjects w \<and>
   sceneRef (snd (clone_ref m w)) = sceneRef w"
  by (cases m) (simp_all add: clone_def split_beta Let_def clone_all_frame)

lemma applyHighlight_fold_frame:
  "objects (foldl (\<lambda>w' m. applyHighlight m w') w ms) = objects w \<and>
   highlightedObjects (foldl (\<lambda>w' m. applyHighlight m w') w ms) = highlightedObjects w \<and>
   sceneRef (foldl (\<lambda>w' m. applyHighlight m w') w ms) = sceneRef w"
  by (induction ms arbitrary: w) (simp_all add: applyHighlight_def)

lemma applyHighlight_ref_frame:
  "objects (applyHighlight_ref m w) = objects w \<and>
   highlightedObjects (applyHighlight_ref m w) = highlightedObjects w \<and>
   sceneRef (applyHighlight_ref m w) = sceneRef w"
proof (cases m)
  case (Single a)
  then show ?thesis by (simp add: applyHighlight_def)
next
  case (Multiple ms)
  then show ?thesis by (simp add: applyHighlight_fold_frame)
qed

text \<open>What one step of the pass does to the object store and to the records.\<close>

lemma highlight_object_step:
  "highlight_object w obj = w \<or>
   (\<exists>original cloned.
      obj_material (objects w obj) = Some original \<and>
      obj \<notin> fst ` set (highlightedObjects w) \<and>
      objects (highlight_object w obj) =
        (objects w)(obj := (objects w obj)\<lparr>obj_material := Some cloned\<rparr>) \<and>
      highlightedObjects (highlight_object w obj) = highlightedObjects w @ [(obj, original)])"
proof (cases "highlight_object w obj = w")
  case True
  then show ?thesis by simp
next
  case False
  then obtain original where orig: "obj_material (objects w obj) = Some original"
    and fresh: "obj \<notin> fst ` set (highlightedObjects w)"
    and grp: "obj_type (objects w obj) \<noteq> js ''Group''"
    by (auto simp: highlight_object_def split: if_splits option.splits)
  have "objects (highlight_object w obj) =
        (objects w)(obj := (objects w obj)\<lparr>obj_material := Some (fst (clone_ref original w))\<rparr>)"
    using orig fresh grp
    by (simp add: highlight_object_def split_beta Let_def set_material_def
        applyHighlight_ref_frame clone_ref_frame)
  moreover have "highlightedObjects (highlight_object w obj) =
      highlightedObjects w @ [(obj, original)]"
    using orig fresh grp
    by (simp add: highlight_object_def split_beta Let_def set_material_def
        applyHighlight_ref_frame clone_ref_frame)
  ultimately show ?thesis
    using orig fresh by blast
qed

lemma highlight_object_scene: "sceneRef (highlight_object w obj) = sceneRef w"
  by (simp add: highlight_object_def split_beta Let_def set_material_def
      applyHighlight_ref_frame clone_ref_frame split: option.splits)

text \<open>The object store once the records are restored, as \<open>unhighlightAllObjects\<close> does.\<close>

lemma restore_record_other: "obj \<noteq> fst h \<Longrightarrow> restore_record os h obj = os obj"
  by (simp add: restore_record_def)

lemma restore_record_twist:
  "obj \<noteq> fst h \<Longrightarrow> restore_record (os(obj := v)) h = (restore_record os h)(obj := v)"
  by (auto simp: restore_record_def fun_eq_iff)

lemma restore_objects:
  "objects (foldl (\<lambda>w' h. set_material (fst h) (snd h) w') w hs) =
   foldl restore_record (objects w) hs"
  by (induction hs arbitrary: w) (simp_all add: set_material_def restore_record_def)

lemma restore_scene:
  "sceneRef (foldl (\<lambda>w' h. set_material (fst h) (snd h) w') w hs) = sceneRef w"
  by (induction hs arbitrary: w) (simp_all add: set_material_def)

lemma unhighlight_objects:
  "objects (unhighlightAllObjects w) =
   foldl restore_record
     (objects w) (highlightedObjects w)"
  by (simp add: unhighlightAllObjects_def restore_objects)

lemma unhighlight_records [simp]: "highlightedObjects (unhighlightAllObjects w) = []"
  by (simp add: unhighlightAllObjects_def)

lemma unhighlight_scene [simp]: "sceneRef (unhighlightAllObjects w) = sceneRef w"
  by (simp add: unhighlightAllObjects_def restore_scene)

lemma restore_other:
  "obj \<notin> fst ` set hs \<Longrightarrow>
   foldl restore_record os hs obj = os obj"
  by (induction hs arbitrary: os) (auto simp: restore_record_other)

lemma restore_update:
  "obj \<notin> fst ` set hs \<Longrightarrow>
   foldl restore_record (os(obj := v)) hs =
   (foldl restore_record os hs)(obj := v)"
  by (induction hs arbitrary: os) (auto simp: restore_record_twist)

lemma highlight_object_invariant:
  assumes "distinct (map fst (highlightedObjects w))"
  shows "distinct (map fst (highlightedObjects (highlight_object w obj))) \<and>
         objects (unhighlightAllObjects (highlight_object w obj)) =
           objects (unhighlightAllObjects w)"
proof -
  consider "highlight_object w obj = w"
    | original cloned where "obj_material (objects w obj) = Some original"
      "obj \<notin> fst ` set (highlightedObjects w)"
      "objects (highlight_object w obj) =
        (objects w)(obj := (objects w obj)\<lparr>obj_material := Some cloned\<rparr>)"
      "highlightedObjects (highlight_object w obj) = highlightedObjects w @ [(obj, original)]"
    using highlight_object_step [of w obj] by blast
  then show ?thesis
  proof cases
    case 1
    then show ?thesis using assms by simp
  next
    case 2
    let ?r = "restore_record"
    have same: "(objects w obj)\<lparr>obj_material := Some original\<rparr> = objects w obj"
      using 2(1) by simp
    have "foldl ?r (objects (highlight_object w obj)) (highlightedObjects (highlight_object w obj)) =
        (foldl ?r (objects w) (highlightedObjects w))(obj := objects w obj)"
      using 2 by (simp add: restore_update restore_record_def same)
    also have "\<dots> = foldl ?r (objects w) (highlightedObjects w)"
      using restore_other [OF 2(2), of "objects w"] by (simp add: fun_upd_idem)
    finally show ?thesis
      using assms 2 by (simp add: unhighlight_objects)
  qed
qed

lemma highlight_pass_invariant:
  assumes "distinct (map fst (highlightedObjects w))"
  shows "distinct (map fst (highlightedObjects (foldl highlight_object w objs))) \<and>
         objects (unhighlightAllObjects (foldl highlight_object w objs)) =
           objects (unhighlightAllObjects w)"
  using assms
proof (induction objs arbitrary: w)
  case Nil
  then show ?case by simp
next
  case (Cons obj objs)
  then show ?case
    using highlight_object_invariant [of w obj] by simp
qed

lemma unhighlight_clean:
  "highlightedObjects w = [] \<Longrightarrow> objects (unhighlightAllObjects w) = objects w"
  by (simp add: unhighlight_objects)

lemma highlight_restored:
  "objects (unhighlightAllObjects (highlightObjectsByLocation locationName w)) =
     objects (unhighlightAllObjects w)"
proof -
  have clean: "distinct (map fst (highlightedObjects (unhighlightAllObjects w)))"
    by simp
  have idem: "objects (unhighlightAllObjects (unhighlightAllObjects w)) =
      objects (unhighlightAllObjects w)"
    by (simp add: unhighlight_clean)
  show ?thesis
    using highlight_pass_invariant [OF clean] idem
    by (simp add: highlightObjectsByLocation_def Let_def split: option.splits)
qed

text \<open>
  C3: for every scene and every location name, \<open>highlightObjectsByLocation\<close> followed by
  \<open>unhighlightAllObjects\<close> leaves the record set empty and every object with the
  material it had once the highlights active before the call were cleared; when no
  highlight is active before the call, that is the very material (the same address, not a
  clone) the object had before the call.
\<close>

theorem highlight_then_unhighlight:
  "highlightedObjects (unhighlightAllObjects (highlightObjectsByLocation locationName w)) = [] \<and>
   objects (unhighlightAllObjects (highlightObjectsByLocation locationName w)) =
     objects (unhighlightAllObjects w) \<and>
   (highlightedObjects w = [] \<longrightarrow>
      (\<forall>obj. obj_material (objects (unhighlightAllObjects
                  (highlightObjectsByLocation locationName w)) obj) =
             obj_material (objects w obj)))"
  by (simp add: highlight_restored unhighlight_clean)

theorem highlight_then_unhighlight_witness:
  "obj_material (objects (highlightObjectsByLocation gymnasium example_world) 3) =
     Some (Single 3) \<and>
   highlightedObjects
     (unhighlightAllObjects (highlightObjectsByLocation gymnasium example_world)) = [] \<and>
   obj_material (objects
     (unhighlightAllObjects (highlightObjectsByLocation gymnasium example_world)) 3) =
     Some (Single 1)"
proof -
  have clean: "highlightedObjects example_world = []"
    by (simp add: example_world_def)
  have before: "obj_material (objects example_world 3) = Some (Single 1)"
    by (simp add: example_world_def)
  have during: "obj_material (objects (highlightObjectsByLocation gymnasium example_world) 3) =
     Some (Single 3)"
    by (simp add: highlight_eval string_eval)
  from highlight_then_unhighlight [of gymnasium example_world] clean
  have "highlightedObjects
     (unhighlightAllObjects (highlightObjectsByLocation gymnasium example_world)) = []"
    and "obj_material (objects
     (unhighlightAllObjects (highlightObjectsByLocation gymnasium example_world)) 3) =
     obj_material (objects example_world 3)"
    by blast+
  then show ?thesis
    using before during by simp
qed

section \<open>The records of a highlight pass\<close>

lemma highlight_pass_records:
  "fst ` set (highlightedObjects (foldl highlight_object w objs)) \<subseteq>
     fst ` set (highlightedObjects w) \<union> set objs"
proof (induction objs arbitrary: w)
  case Nil
  show ?case by simp
next
  case (Cons obj objs)
  have "fst ` set (highlightedObjects (highlight_object w obj)) \<subseteq>
      insert obj (fst ` set (highlightedObjects w))"
    using highlight_object_step [of w obj] by auto
  then show ?case
    using Cons [of "highlight_object w obj"] by simp blast
qed

lemma highlight_pass_untouched:
  "obj \<notin> set objs \<Longrightarrow> objects (foldl highlight_object w objs) obj = objects w obj"
proof (induction objs arbitrary: w)
  case Nil
  show ?case by simp
next
  case (Cons x objs)
  then have "objects (highlight_object w x) obj = objects w obj"
    using highlight_object_step [of w x] by auto
  then show ?case
    using Cons by simp
qed

lemma highlight_pass_scene: "sceneRef (foldl highlight_object w objs) = sceneRef w"
  by (induction objs arbitrary: w) (simp_all add: highlight_object_scene)

lemma highlight_scene [simp]:
  "sceneRef (highlightObjectsByLocation locationName w) = sceneRef w"
  by (simp add: highlightObjectsByLocation_def Let_def highlight_pass_scene split: option.splits)

text \<open>Names and locations are never written to, so a pass always visits the same objects.\<close>

lemma restore_tags:
  "obj_name (foldl restore_record os hs x) = obj_name (os x) \<and>
   userData_location (foldl restore_record os hs x) = userData_location (os x)"
  by (induction hs arbitrary: os) (simp_all add: restore_record_def)

lemma unhighlight_tags:
  "obj_name (objects (unhighlightAllObjects w) x) = obj_name (objects w x) \<and>
   userData_location (objects (unhighlightAllObjects w) x) = userData_location (objects w x)"
  by (simp add: unhighlight_objects restore_tags)

lemma highlight_object_tags:
  "obj_name (objects (highlight_object w obj) x) = obj_name (objects w x) \<and>
   userData_location (objects (highlight_object w obj) x) = userData_location (objects w x)"
  using highlight_object_step [of w obj] by auto

lemma highlight_pass_tags:
  "obj_name (objects (foldl highlight_object w objs) x) = obj_name (objects w x) \<and>
   userData_location (objects (foldl highlight_object w objs) x) = userData_location (objects w x)"
  by (induction objs arbitrary: w) (simp_all add: highlight_object_tags)

lemma highlight_tags:
  "obj_name (objects (highlightObjectsByLocation locationName w) x) = obj_name (objects w x) \<and>
   userData_location (objects (highlightObjectsByLocation locationName w) x) =
     userData_location (objects w x)"
  by (simp add: highlightObjectsByLocation_def Let_def highlight_pass_tags unhighlight_tags
      split: option.splits)

lemma pass_targets_cong:
  assumes "sceneRef w' = sceneRef w"
    and "\<And>x. obj_name (objects w' x) = obj_name (objects w x) \<and>
             userData_location (objects w' x) = userData_location (objects w x)"
  shows "pass_targets locationName w' = pass_targets locationName w"
  using assms
  by (simp add: pass_targets_def objectsToHighlight_def getObjectByName_def
      split: option.splits)

lemma highlight_as_pass:
  "highlightObjectsByLocation locationName w =
     foldl highlight_object (unhighlightAllObjects w)
       (pass_targets locationName (unhighlightAllObjects w))"
  by (simp add: highlightObjectsByLocation_def pass_targets_def Let_def split: option.splits)

lemma restored_record:
  "distinct (map fst hs) \<Longrightarrow> h \<in> set hs \<Longrightarrow>
   obj_material (foldl restore_record os hs (fst h)) = Some (snd h)"
proof (induction hs rule: rev_induct)
  case Nil
  then show ?case by simp
next
  case (snoc k hs)
  show ?case
  proof (cases "h = k")
    case True
    then show ?thesis by (simp add: restore_record_def)
  next
    case False
    then have mem: "h \<in> set hs" using snoc.prems by simp
    then have "fst h \<in> fst ` set hs" by simp
    moreover have "fst k \<notin> fst ` set hs" using snoc.prems(1) by simp
    ultimately have "fst h \<noteq> fst k" by metis
    then show ?thesis
      using snoc mem by (simp add: restore_record_other)
  qed
qed

text \<open>
  C5: at every point of a highlight pass (after any number \<open>n\<close> of the objects to
  highlight have been visited, the whole pass included) no object has two records, and
  the material saved in a record is the one its object had when the pass began, after the
  clearing, so it is never replaced by a clone.
\<close>

theorem one_record_per_object:
  "distinct (map fst (highlightedObjects (pass_state locationName w n))) \<and>
   (\<forall>h \<in> set (highlightedObjects (pass_state locationName w n)).
      obj_material (objects (unhighlightAllObjects w) (fst h)) = Some (snd h)) \<and>
   pass_state locationName w (length (pass_targets locationName (unhighlightAllObjects w))) =
     highlightObjectsByLocation locationName w"
proof -
  let ?st = "pass_state locationName w n"
  have "distinct (map fst (highlightedObjects (unhighlightAllObjects w)))"
    by simp
  from highlight_pass_invariant [OF this]
  have d: "distinct (map fst (highlightedObjects ?st))"
    and r: "objects (unhighlightAllObjects ?st) = objects (unhighlightAllObjects w)"
    by (simp_all add: pass_state_def unhighlight_clean)
  have "obj_material (objects (unhighlightAllObjects w) (fst h)) = Some (snd h)"
    if "h \<in> set (highlightedObjects ?st)" for h
    using restored_record [OF d that, of "objects ?st"] r by (simp add: unhighlight_objects)
  then show ?thesis
    using d by (simp add: highlight_as_pass) (simp add: pass_state_def)
qed

theorem one_record_per_object_witness:
  "pass_targets main_prefix (unhighlightAllObjects example_world) = [1, 1] \<and>
   highlightedObjects (pass_state main_prefix example_world 2) = [(1, Single 0)] \<and>
   distinct (map fst (highlightedObjects (pass_state main_prefix example_world 2))) \<and>
   obj_material (objects (unhighlightAllObjects example_world) 1) = Some (Single 0)"
proof -
  have targets: "pass_targets main_prefix (unhighlightAllObjects example_world) = [1, 1]"
    by (simp add: highlight_eval string_eval)
  have records: "highlightedObjects (pass_state main_prefix example_world 2) = [(1, Single 0)]"
    by (simp add: highlight_eval string_eval)
  from one_record_per_object [of main_prefix example_world 2] targets records
  show ?thesis by simp
qed

section \<open>Two highlights in a row\<close>

text \<open>
  C4: after \<open>highlightObjectsByLocation\<close> for a location A and then for a location B,
  an object that the pass for B does not visit (so every object matching only A) has no
  record and has the material it had once the highlights active before the first call
  were cleared: its own material, when none was active.
\<close>

theorem second_highlight_clears_first:
  assumes "obj \<notin> set (pass_targets locationB w)"
  shows "obj \<notin> fst ` set (highlightedObjects
           (highlightObjectsByLocation locationB (highlightObjectsByLocation locationA w))) \<and>
         objects (highlightObjectsByLocation locationB (highlightObjectsByLocation locationA w)) obj =
           objects (unhighlightAllObjects w) obj \<and>
         (highlightedObjects w = [] \<longrightarrow>
            obj_material (objects (highlightObjectsByLocation locationB
               (highlightObjectsByLocation locationA w)) obj) = obj_material (objects w obj))"
proof -
  let ?w1 = "highlightObjectsByLocation locationA w"
  let ?w0 = "unhighlightAllObjects ?w1"
  have targets: "pass_targets locationB ?w0 = pass_targets locationB w"
    by (rule pass_targets_cong) (simp_all add: unhighlight_tags highlight_tags)
  have cleared: "objects ?w0 = objects (unhighlightAllObjects w)"
    by (rule highlight_restored)
  have "fst ` set (highlightedObjects (highlightObjectsByLocation locationB ?w1)) \<subseteq>
      set (pass_targets locationB w)"
    using highlight_pass_records [of ?w0 "pass_targets locationB ?w0"]
    by (simp add: highlight_as_pass [of locationB ?w1] targets)
  moreover have "objects (highlightObjectsByLocation locationB ?w1) obj =
      objects (unhighlightAllObjects w) obj"
    using highlight_pass_untouched [of obj "pass_targets locationB ?w0" ?w0] assms
    by (simp add: highlight_as_pass [of locationB ?w1] targets cleared)
  ultimately show ?thesis
    using assms by (auto simp: unhighlight_clean)
qed

theorem second_highlight_clears_first_witness:
  "obj_material (objects (highlightObjectsByLocation gymnasium example_world) 3) =
     Some (Single 3) \<and>
   3 \<notin> fst ` set (highlightedObjects
     (highlightObjectsByLocation classrooms
        (highlightObjectsByLocation gymnasium example_world))) \<and>
   obj_material (objects
     (highlightObjectsByLocation classrooms
        (highlightObjectsByLocation gymnasium example_world)) 3) = Some (Single 1)"
proof -
  have clean: "highlightedObjects example_world = []"
    by (simp add: example_world_def)
  have before: "obj_material (objects example_world 3) = Some (Single 1)"
    by (simp add: example_world_def)
  have only_first: "3 \<notin> set (pass_targets classrooms example_world)"
    by (simp add: highlight_eval string_eval)
  have during: "obj_material (objects (highlightObjectsByLocation gymnasium example_world) 3) =
     Some (Single 3)"
    by (simp add: highlight_eval string_eval)
  from second_highlight_clears_first [OF only_first, of gymnasium] clean
  have "3 \<notin> fst ` set (highlightedObjects
     (highlightObjectsByLocation classrooms
        (highlightObjectsByLocation gymnasium example_world)))"
    and "obj_material (objects
     (highlightObjectsByLocation classrooms
        (highlightObjectsByLocation gymnasium example_world)) 3) =
     obj_material (objects example_world 3)"
    by blast+
  then show ?thesis
    using before during by simp
qed

section \<open>The materials allocated before a highlight\<close>

text \<open>
  Cloning allocates above the allocation pointer and the highlight treatment is applied to
  the clones only: the materials allocated before a call keep their fields.
\<close>

lemma clone_all_fresh:
  "next_material w \<le> next_material (snd (clone_all ms w)) \<and>
   (\<forall>a < next_material w. materials (snd (clone_all ms w)) a = materials w a) \<and>
   (\<forall>c \<in> set (fst (clone_all ms w)). next_material w \<le> c)"
proof (induction ms arbitrary: w)
  case Nil
  show ?case by simp
next
  case (Cons m ms)
  let ?w1 = "snd (clone m w)"
  have 1: "next_material ?w1 = Suc (next_material w)"
    and 2: "\<forall>a < next_material w. materials ?w1 a = materials w a"
    and 3: "fst (clone m w) = next_material w"
    by (simp_all add: clone_def)
  from Cons [of ?w1] 1 2 3 show ?case
    by (auto simp: split_beta Let_def)
qed

lemma applyHighlight_fold_others:
  "next_material (foldl (\<lambda>w' m. applyHighlight m w') w ms) = next_material w \<and>
   (\<forall>a. a \<notin> set ms \<longrightarrow> materials (foldl (\<lambda>w' m. applyHighlight m w') w ms) a = materials w a)"
  by (induction ms arbitrary: w) (simp_all add: applyHighlight_def)

lemma set_material_heap:
  "materials (set_material obj m w) = materials w \<and>
   next_material (set_material obj m w) = next_material w"
  by (simp add: set_material_def)

lemma highlight_object_fresh:
  "next_material w \<le> next_material (highlight_object w obj) \<and>
   (\<forall>a < next_material w. materials (highlight_object w obj) a = materials w a)"
proof (cases "highlight_object w obj = w")
  case True
  then show ?thesis by simp
next
  case False
  then obtain original where orig: "obj_material (objects w obj) = Some original"
    and fresh: "obj \<notin> set (map fst (highlightedObjects w))"
    and grp: "obj_type (objects w obj) \<noteq> js ''Group''"
    by (auto simp: highlight_object_def split: if_splits option.splits)
  show ?thesis
  proof (cases original)
    case (Single m)
    then show ?thesis
      using orig fresh grp
      by (simp add: highlight_object_def split_beta Let_def set_material_def clone_def
          applyHighlight_def)
  next
    case (Multiple ms)
    let ?c = "clone_all ms w"
    let ?w2 = "(snd ?c)\<lparr>highlightedObjects := highlightedObjects (snd ?c) @ [(obj, original)]\<rparr>"
    have step: "highlight_object w obj =
        set_material obj (Multiple (fst ?c))
          (foldl (\<lambda>w' m. applyHighlight m w') ?w2 (fst ?c))"
      using orig fresh grp Multiple
      by (simp add: highlight_object_def split_beta Let_def)
    have "\<forall>a < next_material w. a \<notin> set (fst ?c)"
      using clone_all_fresh [of w ms] by auto
    then show ?thesis
      using clone_all_fresh [of w ms] applyHighlight_fold_others [of ?w2 "fst ?c"]
      by (simp add: step set_material_heap)
  qed
qed

lemma highlight_pass_fresh:
  "next_material w \<le> next_material (foldl highlight_object w objs) \<and>
   (\<forall>a < next_material w. materials (foldl highlight_object w objs) a = materials w a)"
proof (induction objs arbitrary: w)
  case Nil
  show ?case by simp
next
  case (Cons obj objs)
  let ?w1 = "highlight_object w obj"
  have le: "next_material w \<le> next_material ?w1"
    and keep: "\<forall>a < next_material w. materials ?w1 a = materials w a"
    using highlight_object_fresh [of w obj] by simp_all
  have le': "next_material ?w1 \<le> next_material (foldl highlight_object ?w1 objs)"
    and keep': "\<forall>a < next_material ?w1. materials (foldl highlight_object ?w1 objs) a =
       materials ?w1 a"
    using Cons [of ?w1] by simp_all
  have "materials (foldl highlight_object ?w1 objs) a = materials w a"
    if "a < next_material w" for a
  proof -
    from that le have "a < next_material ?w1" by simp
    then show ?thesis using keep keep' that by simp
  qed
  then show ?case
    using le le' by simp
qed

lemma restore_heap:
  "materials (foldl (\<lambda>w' h. set_material (fst h) (snd h) w') w hs) = materials w \<and>
   next_material (foldl (\<lambda>w' h. set_material (fst h) (snd h) w') w hs) = next_material w"
  by (induction hs arbitrary: w) (simp_all add: set_material_def)

lemma unhighlight_heap:
  "materials (unhighlightAllObjects w) = materials w \<and>
   next_material (unhighlightAllObjects w) = next_material w"
  by (simp add: unhighlightAllObjects_def restore_heap)

lemma allocated_materials_unchanged:
  "a < next_material w \<Longrightarrow>
     materials (highlightObjectsByLocation locationName w) a = materials w a"
  using highlight_pass_fresh [of "unhighlightAllObjects w"]
  by (simp add: highlight_as_pass unhighlight_heap)

end
